theory Spec2Isabelle
  imports Main
begin

section \<open>Strings and number formatting\<close>

text \<open>
  Go strings and byte slices are byte sequences; both are modelled as \<open>string\<close>
  (a list of 8-bit characters). A nil byte slice, where the source tests for it, is
  \<open>None\<close>.
\<close>

type_synonym bytes = string

definition digitChar :: "nat \<Rightarrow> char" where
  "digitChar n = ''0123456789'' ! (n mod 10)"

text \<open>The verb \<open>%d\<close> of \<open>fmt\<close>: decimal digits, with a sign for negative numbers.\<close>

fun showNat :: "nat \<Rightarrow> string" where
  "showNat n = (if n < 10 then [digitChar n] else showNat (n div 10) @ [digitChar (n mod 10)])"

declare showNat.simps [simp del]

definition showInt :: "int \<Rightarrow> string" where
  "showInt i = (if i < 0 then ''-'' @ showNat (nat (- i)) else showNat (nat i))"

text \<open>Arithmetic on \<open>int64\<close> wraps around (two's complement).\<close>

definition wrap64 :: "int \<Rightarrow> int" where
  "wrap64 x = (x + 2 ^ 63) mod 2 ^ 64 - 2 ^ 63"

section \<open>lib.IPC: the name of the default local socket\<close>

text \<open>The character class \<open>[a-zA-Z0-9]\<close> of \<open>ipcRegexp\<close>.\<close>

definition isAlnum :: "char \<Rightarrow> bool" where
  "isAlnum c = (let n = (of_char c :: nat) in
     (97 \<le> n \<and> n \<le> 122) \<or> (65 \<le> n \<and> n \<le> 90) \<or> (48 \<le> n \<and> n \<le> 57))"

text \<open>
  \<open>ipcRegexp.ReplaceAllString(s, repl)\<close> for the pattern \<open>[^a-zA-Z0-9]{1,}\<close>: the
  matches are found from the left, each one is greedy (it takes the whole run of
  characters outside the class), and each is replaced by \<open>repl\<close> (a text without
  \<open>$\<close>, as the \<open>-\<close> of \<open>IPC\<close> is, stands for itself). Every byte of a
  multi-byte UTF-8 sequence, and every invalid byte, is outside the class, so scanning
  bytes finds the same runs as scanning runes.
\<close>

function ReplaceAllString :: "string \<Rightarrow> string \<Rightarrow> string" where
  "ReplaceAllString [] repl = []"
| "ReplaceAllString (c # cs) repl =
     (if isAlnum c then c # ReplaceAllString cs repl
      else repl @ ReplaceAllString (dropWhile (\<lambda>x. \<not> isAlnum x) cs) repl)"
  by pat_completeness auto
termination
  by (relation "measure (\<lambda>(s, r). length s)") (auto simp: length_dropWhile_le le_imp_less_Suc)

text \<open>\<open>strings.Join(args, sep)\<close>.\<close>

fun Join :: "string list \<Rightarrow> string \<Rightarrow> string" where
  "Join [] sep = []"
| "Join [a] sep = a"
| "Join (a # b # rest) sep = a @ sep @ Join (b # rest) sep"

definition IPC :: "string list \<Rightarrow> string" where
  "IPC args = ''ipc://@kusanagi-'' @ ReplaceAllString (Join args ''-'') ''-''"

subsection \<open>The specification's wording: maximal runs\<close>

text \<open>
  The decomposition of a string into its maximal runs of characters of one kind
  (alphanumeric or not), and the replacement of each non-alphanumeric run by one
  separator. This definition follows the specification, not the source; the two are
  compared below.
\<close>

function runs :: "string \<Rightarrow> string list" where
  "runs [] = []"
| "runs (c # cs) =
     (c # takeWhile (\<lambda>x. isAlnum x = isAlnum c) cs)
       # runs (dropWhile (\<lambda>x. isAlnum x = isAlnum c) cs)"
  by pat_completeness auto
termination
  by (relation "measure length") (auto simp: length_dropWhile_le le_imp_less_Suc)

definition collapseRun :: "string \<Rightarrow> string" where
  "collapseRun r = (if list_all isAlnum r then r else ''-'')"

definition spec_socket_name :: "string \<Rightarrow> string" where
  "spec_socket_name s = concat (map collapseRun (runs s))"

text \<open>What makes a list of blocks the maximal runs of a string.\<close>

definition homogeneous :: "string \<Rightarrow> bool" where
  "homogeneous r = list_all (\<lambda>x. isAlnum x = isAlnum (hd r)) r"

fun alternating :: "string list \<Rightarrow> bool" where
  "alternating (r1 # r2 # rs) = (isAlnum (hd r1) \<noteq> isAlnum (hd r2) \<and> alternating (r2 # rs))"
| "alternating _ = True"

definition maximal_runs :: "string \<Rightarrow> string list \<Rightarrow> bool" where
  "maximal_runs s rs =
     (concat rs = s \<and> list_all (\<lambda>r. r \<noteq> [] \<and> homogeneous r) rs \<and> alternating rs)"

section \<open>The configuration and the listening address\<close>

text \<open>
  \<open>cli.Input\<close> is outside the files at hand; the record has one field for each getter
  that the server calls.
\<close>

record input =
  IsTCPEnabled :: bool
  GetTCP :: int
  GetSocket :: string
  GetComponent :: string
  GetName :: string
  GetVersion :: string
  GetComponentTitle :: string
  GetTimeout :: int

definition getAddress :: "input \<Rightarrow> string" where
  "getAddress i =
     (if IsTCPEnabled i then ''tcp://127.0.0.1:'' @ showInt (GetTCP i)
      else if GetSocket i \<noteq> [] then ''ipc://'' @ GetSocket i
      else IPC [GetComponent i, GetName i, GetVersion i])"

section \<open>Go channels\<close>

text \<open>
  A channel is its buffer, its capacity and whether it has been closed. An unbuffered
  channel has capacity 0: a send on it succeeds only by handing the value to a receiver
  that is waiting.
\<close>

record 'a chan =
  chanBuf :: "'a list"
  chanCap :: nat
  chanClosed :: bool

definition makeChan :: "nat \<Rightarrow> 'a chan" where
  "makeChan n = \<lparr>chanBuf = [], chanCap = n, chanClosed = False\<rparr>"

definition closeChan :: "'a chan \<Rightarrow> 'a chan" where
  "closeChan ch = ch\<lparr>chanClosed := True\<rparr>"

datatype 'a sendResult = Panics | Blocks | Handed | Buffered "'a chan"

text \<open>
  A send on a closed channel panics. On an open channel the value goes to a waiting
  receiver when the buffer is empty, else into the buffer when there is room, else the
  sender blocks.
\<close>

definition chanSend :: "'a chan \<Rightarrow> bool \<Rightarrow> 'a \<Rightarrow> 'a sendResult" where
  "chanSend ch receiverWaiting v =
     (if chanClosed ch then Panics
      else if receiverWaiting \<and> chanBuf ch = [] then Handed
      else if length (chanBuf ch) < chanCap ch then Buffered (ch\<lparr>chanBuf := chanBuf ch @ [v]\<rparr>)
      else Blocks)"

text \<open>
  A receive takes the oldest buffered value (\<open>Some (Some v, ch')\<close>); on a closed and
  drained channel it returns at once without a value (\<open>Some (None, ch)\<close>); on an open
  and empty channel it blocks (\<open>None\<close>).
\<close>

definition chanRecv :: "'a chan \<Rightarrow> ('a option \<times> 'a chan) option" where
  "chanRecv ch =
     (case chanBuf ch of
        v # rest \<Rightarrow> Some (Some v, ch\<lparr>chanBuf := rest\<rparr>)
      | [] \<Rightarrow> if chanClosed ch then Some (None, ch) else None)"

text \<open>
  The two-valued receive \<open>v, ok := <-ch\<close>: \<open>ok\<close> is true when \<open>v\<close> was delivered by a
  send, and false when \<open>v\<close> is the zero value of a closed and drained channel.
\<close>

definition chanRecvOk :: "'a \<Rightarrow> 'a chan \<Rightarrow> (('a \<times> bool) \<times> 'a chan) option" where
  "chanRecvOk zero ch =
     (case chanRecv ch of
        None \<Rightarrow> None
      | Some (Some v, ch') \<Rightarrow> Some ((v, True), ch')
      | Some (None, ch') \<Rightarrow> Some ((zero, False), ch'))"

section \<open>pipeOutput\<close>

text \<open>
  \<open>pipeOutput(c)\<close> makes a channel with the capacity of \<open>c\<close> and starts a goroutine
  that runs \<open>for output := range c { pipe <- output }\<close>. The system is the two channels,
  the value the goroutine holds between its receive and its send, and whether the
  goroutine is still running. \<open>history\<close> and \<open>delivered\<close> record what has been sent
  on \<open>c\<close> and what the reader has received from the returned channel.
\<close>

record 'a pipeSys =
  srcChan :: "'a chan"
  held :: "'a option"
  pipeChan :: "'a chan"
  running :: bool
  history :: "'a list"
  delivered :: "'a list"

definition pipeOutput :: "'a chan \<Rightarrow> 'a pipeSys" where
  "pipeOutput c =
     \<lparr>srcChan = c, held = None, pipeChan = makeChan (chanCap c), running = True,
      history = chanBuf c, delivered = []\<rparr>"

text \<open>
  The interleavings: a producer sends on \<open>c\<close> or closes it, the goroutine performs its
  next channel operation, the reader receives from the returned channel. An event that
  cannot happen in a state (the operation would block or panic) gives \<open>None\<close>.
\<close>

datatype 'a event = Send 'a | Close | Forward | Receive

fun step :: "'a pipeSys \<Rightarrow> 'a event \<Rightarrow> 'a pipeSys option" where
  "step s (Send v) =
     (case chanSend (srcChan s) (running s \<and> held s = None) v of
        Buffered c' \<Rightarrow> Some (s\<lparr>srcChan := c', history := history s @ [v]\<rparr>)
      | Handed \<Rightarrow> Some (s\<lparr>held := Some v, history := history s @ [v]\<rparr>)
      | Blocks \<Rightarrow> None
      | Panics \<Rightarrow> None)"
| "step s Close =
     (if chanClosed (srcChan s) then None else Some (s\<lparr>srcChan := closeChan (srcChan s)\<rparr>))"
| "step s Forward =
     (if running s then
        (case held s of
           Some v \<Rightarrow>
             (case chanSend (pipeChan s) False v of
                Buffered p' \<Rightarrow> Some (s\<lparr>pipeChan := p', held := None\<rparr>)
              | Handed \<Rightarrow> None
              | Blocks \<Rightarrow> None
              | Panics \<Rightarrow> None)
         | None \<Rightarrow>
             (case chanRecv (srcChan s) of
                Some (Some v, c') \<Rightarrow> Some (s\<lparr>srcChan := c', held := Some v\<rparr>)
              | Some (None, c') \<Rightarrow> Some (s\<lparr>running := False\<rparr>)
              | None \<Rightarrow> None))
      else None)"
| "step s Receive =
     (case chanRecv (pipeChan s) of
        Some (Some v, p') \<Rightarrow> Some (s\<lparr>pipeChan := p', delivered := delivered s @ [v]\<rparr>)
      | Some (None, p') \<Rightarrow> None
      | None \<Rightarrow>
          (case held s of
             Some v \<Rightarrow>
               (if running s then
                  (case chanSend (pipeChan s) True v of
                     Handed \<Rightarrow> Some (s\<lparr>held := None, delivered := delivered s @ [v]\<rparr>)
                   | Buffered p' \<Rightarrow> None
                   | Blocks \<Rightarrow> None
                   | Panics \<Rightarrow> None)
                else None)
           | None \<Rightarrow> None))"

fun run :: "'a pipeSys \<Rightarrow> 'a event list \<Rightarrow> 'a pipeSys option" where
  "run s [] = Some s"
| "run s (e # es) = (case step s e of None \<Rightarrow> None | Some s' \<Rightarrow> run s' es)"

text \<open>What has reached the returned channel, and what is still on its way there.\<close>

definition forwarded :: "'a pipeSys \<Rightarrow> 'a list" where
  "forwarded s = delivered s @ chanBuf (pipeChan s)"

definition inTransit :: "'a pipeSys \<Rightarrow> 'a list" where
  "inTransit s = (case held s of None \<Rightarrow> [] | Some v \<Rightarrow> [v]) @ chanBuf (srcChan s)"

text \<open>
  The invariant of the system: the values that have reached the returned channel,
  followed by those still on their way, are the values sent on \<open>c\<close>, in their order;
  the returned channel keeps its capacity and is never closed; the goroutine has ended
  only when \<open>c\<close> is closed and drained.
\<close>

definition pipeInv :: "nat \<Rightarrow> 'a pipeSys \<Rightarrow> bool" where
  "pipeInv k s =
     (forwarded s @ inTransit s = history s \<and> chanCap (pipeChan s) = k
      \<and> length (chanBuf (pipeChan s)) \<le> k \<and> chanClosed (pipeChan s) = False
      \<and> (running s \<or> (held s = None \<and> chanBuf (srcChan s) = [] \<and> chanClosed (srcChan s))))"

text \<open>The values that a sequence of events sends on \<open>c\<close>.\<close>

fun sendsOf :: "'a event list \<Rightarrow> 'a list" where
  "sendsOf [] = []"
| "sendsOf (Send v # es) = v # sendsOf es"
| "sendsOf (e # es) = sendsOf es"

text \<open>The number of events that remain until everything in the system is delivered.\<close>

definition todo :: "'a pipeSys \<Rightarrow> nat" where
  "todo s = 3 * length (chanBuf (srcChan s)) + (case held s of None \<Rightarrow> 0 | Some v \<Rightarrow> 2)
            + length (chanBuf (pipeChan s))"

section \<open>Messages, replies and logs\<close>

text \<open>A multipart message is its list of frames.\<close>

type_synonym requestMsg = "bytes list"
type_synonym responseMsg = "bytes list"

text \<open>Modelled from the spec: the reply envelope of package \<open>payload\<close> and
  \<open>payload.NewErrorReply\<close>, which are outside the files at hand. The envelope has an
  optional action-level result and an optional error with a message; the error reply
  declares no result and has an error whose message is still empty.
\<close>

record errorInfo =
  Message :: string

record reply =
  Result :: "bytes option"
  Error :: "errorInfo option"

definition NewErrorReply :: reply where
  "NewErrorReply = \<lparr>Result = None, Error = Some \<lparr>Message = []\<rparr>\<rparr>"

text \<open>A log entry: the level, the request id of a request logger (if any), the text.\<close>

datatype level = Critical | Errorf | Warningf

datatype logEntry = LogEntry level "string option" string

text \<open>What \<open>socket.SendMessage\<close> returns: success, the context was terminated, another error.\<close>

datatype sendOutcome = SendOk | SendETERM string | SendFailed string

section \<open>The request state and the request output\<close>

text \<open>
  The struct \<open>state\<close>. The types of the command and of the schema mapping belong to
  package \<open>payload\<close> and stay abstract. \<open>schemas\<close> and \<open>reply\<close> are pointers (nil is
  \<open>None\<close>); \<open>context_s\<close> is nil or a context with a timeout, given in nanoseconds.
\<close>

record ('c, 'm) state =
  id_s :: string
  componentTitle :: string
  action :: string
  schemas :: "'m option"
  command :: 'c
  reply_s :: "reply option"
  payload :: bytes
  input_s :: input
  context_s :: "int option"
  logger :: string

record ('c, 'm) requestOutput =
  state :: "('c, 'm) state"
  err :: "string option"
  response :: responseMsg

section \<open>Collaborators outside the files at hand\<close>

text \<open>
  The methods of \<open>requestMsg\<close>, the codec of package \<open>lib\<close>, the constant
  \<open>emptyFrame\<close>, the process id and the socket are not in the files at hand. They are
  parameters: every theorem below holds for whatever they compute.
  \<open>UnpackCommand\<close> and \<open>UnpackMapping\<close> give what \<open>lib.Unpack\<close> decodes a blob to (or
  its error), \<open>zeroCommand\<close> is the zero value of \<open>payload.Command\<close>.
\<close>

record ('c, 'm) deps =
  check :: "requestMsg \<Rightarrow> string option"
  getRequestID :: "requestMsg \<Rightarrow> string"
  getAction :: "requestMsg \<Rightarrow> string"
  getSchemas :: "requestMsg \<Rightarrow> bytes option"
  getPayload :: "requestMsg \<Rightarrow> bytes option"
  emptyFrame :: bytes
  UnpackMapping :: "bytes \<Rightarrow> string + 'm"
  UnpackCommand :: "bytes \<Rightarrow> string + 'c"
  zeroCommand :: 'c
  Pack :: "reply \<Rightarrow> string + bytes"
  Getpid :: int
  SendMessage :: "responseMsg \<Rightarrow> sendOutcome"

text \<open>
  The component, as far as the server uses it: its method \<open>hasCallback\<close>, which is
  outside the files at hand and is a parameter. The server reaches it through the type
  assertion \<open>s.component.(*component)\<close>, taken to hold.
\<close>

record component =
  hasCallback :: "string \<Rightarrow> bool"

text \<open>
  The request processor is given the state and the per-request channel \<open>outc\<close>, and runs
  in a goroutine of its own. What matters to the dispatcher is how its send on \<open>outc\<close>
  is ordered with the deadline, that is, which case of the \<open>select\<close> is taken:
  the send is received by the \<open>select\<close>; or the deadline is taken and the processor
  sends later; or the deadline is taken and the processor never sends.
\<close>

datatype 'o processorRun = WritesBeforeDeadline 'o | WritesAfterDeadline 'o | NeverWrites

record ('c, 'm) server =
  component_s :: component
  input :: input
  processor :: "component \<Rightarrow> ('c, 'm) state \<Rightarrow> ('c, 'm) requestOutput processorRun"

section \<open>createErrorRespose\<close>

definition createErrorRespose ::
  "('c, 'm) deps \<Rightarrow> string \<Rightarrow> string \<Rightarrow> string + responseMsg" where
  "createErrorRespose d rid message =
     (let p = NewErrorReply;
          p = p\<lparr>Error := map_option (\<lambda>e. e\<lparr>Message := message\<rparr>) (Error p)\<rparr>
      in case Pack d p of
           Inl e \<Rightarrow> Inl e
         | Inr data \<Rightarrow> Inr [rid, emptyFrame d, data])"

section \<open>The goroutine of one request\<close>

text \<open>
  What one request goroutine of \<open>startMessageListener\<close> does: the outputs it puts on
  the shared channel \<open>resc\<close>, what it logs, the state it hands to the processor (if it
  starts one), the per-request channel \<open>outc\<close> as the goroutine leaves it (if it made
  one), and the result of the processor's send when that send comes after the goroutine
  has returned. The shared channel has a buffer of 1000 outputs and is read by the
  reactor; a send on it is taken to go through.
\<close>

record ('c, 'm) goroutine =
  enqueued :: "('c, 'm) requestOutput list"
  logged :: "logEntry list"
  invoked :: "('c, 'm) state option"
  outc :: "('c, 'm) requestOutput chan option"
  lateSend :: "('c, 'm) requestOutput sendResult option"

definition invalidAction :: "string \<Rightarrow> string \<Rightarrow> string" where
  "invalidAction title a = ''Invalid action for component '' @ title @ '': '' @ [CHR 0x22] @ a @ [CHR 0x22]"

definition invalidPayload :: "string \<Rightarrow> string \<Rightarrow> string" where
  "invalidPayload title a = ''Invalid payload for component '' @ title @ '': '' @ [CHR 0x22] @ a @ [CHR 0x22]"

definition timedOut :: "int \<Rightarrow> int \<Rightarrow> string" where
  "timedOut timeout pid = ''Execution timed out after '' @ showInt timeout @ ''ms. PID: '' @ showInt pid"

text \<open>
  The process execution timeout: \<open>time.Duration(s.input.GetTimeout()) * time.Millisecond\<close>,
  a number of nanoseconds.
\<close>

definition timeoutOf :: "input \<Rightarrow> int" where
  "timeoutOf i = wrap64 (wrap64 (GetTimeout i) * 1000000)"

text \<open>The struct literal that makes the state of a request from its message.\<close>

definition newState ::
  "('c, 'm) deps \<Rightarrow> ('c, 'm) server \<Rightarrow> 'm option \<Rightarrow> requestMsg \<Rightarrow> ('c, 'm) state" where
  "newState d s schemasVar msg =
     \<lparr>id_s = getRequestID d msg, componentTitle = [], action = getAction d msg,
      schemas = schemasVar, command = zeroCommand d, reply_s = None, payload = [],
      input_s = input s, context_s = None, logger = getRequestID d msg\<rparr>"

text \<open>
  The reading of the payload. \<open>lib.Unpack(v, state.command)\<close> is given the command by
  value, so the field \<open>command\<close> of the state keeps its zero value whatever the payload
  decodes to; only the error of the decoding is used.
\<close>

definition payloadError :: "('c, 'm) deps \<Rightarrow> requestMsg \<Rightarrow> string option" where
  "payloadError d msg =
     (case getPayload d msg of
        None \<Rightarrow> None
      | Some v \<Rightarrow> (case UnpackCommand d v of Inl e \<Rightarrow> Some e | Inr c \<Rightarrow> None))"

text \<open>The state as the processor gets it: with the context that carries the timeout.\<close>

definition handlerState ::
  "('c, 'm) deps \<Rightarrow> ('c, 'm) server \<Rightarrow> 'm option \<Rightarrow> requestMsg \<Rightarrow> ('c, 'm) state" where
  "handlerState d s schemasVar msg =
     (newState d s schemasVar msg)\<lparr>context_s := Some (timeoutOf (input s))\<rparr>"

definition processRequest ::
  "('c, 'm) deps \<Rightarrow> ('c, 'm) server \<Rightarrow> 'm option \<Rightarrow> requestMsg \<Rightarrow> ('c, 'm) goroutine" where
  "processRequest d s schemasVar msg =
     (let rid = getRequestID d msg;
          act = getAction d msg;
          title = GetComponentTitle (input s);
          timeout = timeoutOf (input s);
          st = newState d s schemasVar msg;
          output = \<lparr>state = st, err = None, response = []\<rparr>
      in if \<not> hasCallback (component_s s) (getAction d msg) then
           \<lparr>enqueued = [output\<lparr>err := Some (invalidAction title act)\<rparr>], logged = [],
            invoked = None, outc = None, lateSend = None\<rparr>
         else
           (case payloadError d msg of
              Some e \<Rightarrow>
                \<lparr>enqueued = [output\<lparr>err := Some (invalidPayload title act)\<rparr>],
                 logged = [LogEntry Critical None (''Failed to read payload: '' @ e)],
                 invoked = None, outc = None, lateSend = None\<rparr>
            | None \<Rightarrow>
                (let st' = handlerState d s schemasVar msg;
                     ch = makeChan 0;
                     warning = LogEntry Warningf (Some rid) (timedOut timeout (Getpid d))
                 in case processor s (component_s s) st' of
                      WritesBeforeDeadline out \<Rightarrow>
                        \<lparr>enqueued = (case chanSend ch True out of
                                       Handed \<Rightarrow> [out] | Buffered c \<Rightarrow> [] | Blocks \<Rightarrow> []
                                     | Panics \<Rightarrow> []),
                         logged = [], invoked = Some st', outc = Some (closeChan ch),
                         lateSend = None\<rparr>
                    | WritesAfterDeadline out \<Rightarrow>
                        \<lparr>enqueued = [], logged = [warning], invoked = Some st',
                         outc = Some (closeChan ch),
                         lateSend = Some (chanSend (closeChan ch) False out)\<rparr>
                    | NeverWrites \<Rightarrow>
                        \<lparr>enqueued = [], logged = [warning], invoked = Some st',
                         outc = Some (closeChan ch), lateSend = None\<rparr>)))"

text \<open>
  An unrecovered panic in any goroutine ends the whole process.
\<close>

definition crashes :: "('c, 'm) goroutine \<Rightarrow> bool" where
  "crashes g = (lateSend g = Some Panics)"

section \<open>The message listener\<close>

text \<open>
  The state of the listener goroutine: the variable \<open>schemas\<close>, the global log, and
  the request goroutines it has started, in the order of their start (each with the
  value \<open>schemas\<close> had when it was started).
\<close>

record ('c, 'm) listener =
  schemasVar :: "'m option"
  globalLog :: "logEntry list"
  goroutines :: "('c, 'm) goroutine list"

definition newListener :: "('c, 'm) listener" where
  "newListener = \<lparr>schemasVar = None, globalLog = [], goroutines = []\<rparr>"

text \<open>The body of the loop after the test of \<open>closed\<close>.\<close>

definition handleMessage ::
  "('c, 'm) deps \<Rightarrow> ('c, 'm) server \<Rightarrow> requestMsg \<Rightarrow> ('c, 'm) listener \<Rightarrow> ('c, 'm) listener" where
  "handleMessage d s msg L =
     (case check d msg of
        Some e \<Rightarrow> L\<lparr>globalLog := globalLog L @ [LogEntry Critical None e]\<rparr>
      | None \<Rightarrow>
          (let L1 = (case getSchemas d msg of
                       None \<Rightarrow> L
                     | Some v \<Rightarrow>
                         (case UnpackMapping d v of
                            Inl e \<Rightarrow> L\<lparr>globalLog := globalLog L
                                       @ [LogEntry Errorf None (''Failed to read schemas: '' @ e)]\<rparr>
                          | Inr m \<Rightarrow> L\<lparr>schemasVar := Some m\<rparr>))
           in L1\<lparr>goroutines := goroutines L1 @ [processRequest d s (schemasVar L1) msg]\<rparr>))"

text \<open>
  The loop of the listener goroutine, on the channel \<open>msgc\<close> as it stands. It ends when
  the loop breaks (\<open>Exited\<close>) or when the receive blocks on an open and empty channel
  (\<open>Waiting\<close>); \<open>None\<close> means that the loop is still running after the given number of
  iterations. The second value of the receive is bound to the variable \<open>closed\<close>.
\<close>

datatype 'a loopEnd = Exited 'a | Waiting 'a

fun listenerLoop ::
  "nat \<Rightarrow> ('c, 'm) deps \<Rightarrow> ('c, 'm) server \<Rightarrow> requestMsg chan \<Rightarrow> ('c, 'm) listener
     \<Rightarrow> ('c, 'm) listener loopEnd option" where
  "listenerLoop 0 d s msgc L = None"
| "listenerLoop (Suc n) d s msgc L =
     (case chanRecvOk [] msgc of
        None \<Rightarrow> Some (Waiting L)
      | Some ((msg, closed), msgc') \<Rightarrow>
          if closed then Some (Exited L)
          else listenerLoop n d s msgc' (handleMessage d s msg L))"

text \<open>What the request goroutines have put on \<open>resc\<close>.\<close>

definition resc :: "('c, 'm) listener \<Rightarrow> ('c, 'm) requestOutput list" where
  "resc L = concat (map enqueued (goroutines L))"

definition startMessageListener ::
  "nat \<Rightarrow> ('c, 'm) deps \<Rightarrow> ('c, 'm) server \<Rightarrow> requestMsg chan
     \<Rightarrow> ('c, 'm) listener loopEnd option" where
  "startMessageListener n d s msgc = listenerLoop n d s msgc newListener"

section \<open>The reactor's handler of the outputs\<close>

text \<open>
  One run of the channel handler of \<open>start\<close>: the messages it hands to
  \<open>socket.SendMessage\<close>, what it logs, and the error it returns (which stops the
  reactor).
\<close>

record reactorStep =
  sent :: "responseMsg list"
  reactorLog :: "logEntry list"
  returned :: "string option"

definition sendResponse :: "('c, 'm) deps \<Rightarrow> string \<Rightarrow> responseMsg \<Rightarrow> reactorStep" where
  "sendResponse d lg resp =
     (case SendMessage d resp of
        SendOk \<Rightarrow> \<lparr>sent = [resp], reactorLog = [], returned = None\<rparr>
      | SendETERM e \<Rightarrow> \<lparr>sent = [resp], reactorLog = [], returned = Some e\<rparr>
      | SendFailed e \<Rightarrow>
          \<lparr>sent = [resp],
           reactorLog = [LogEntry Errorf (Some lg) (''Failed to send response to client: '' @ e)],
           returned = None\<rparr>)"

definition handleOutput :: "('c, 'm) deps \<Rightarrow> ('c, 'm) requestOutput \<Rightarrow> reactorStep" where
  "handleOutput d output =
     (let lg = logger (state output) in
      case err output of
        Some e \<Rightarrow>
          (case createErrorRespose d (id_s (state output)) e of
             Inl perr \<Rightarrow>
               \<lparr>sent = [],
                reactorLog = [LogEntry Errorf (Some lg) (''Request failed with error: '' @ e),
                              LogEntry Errorf (Some lg) (''Failed to create error response: '' @ perr)],
                returned = None\<rparr>
           | Inr resp \<Rightarrow> sendResponse d lg resp)
      | None \<Rightarrow> sendResponse d lg (response output))"

text \<open>The replies that leave for the outputs of one request goroutine.\<close>

definition replies :: "('c, 'm) deps \<Rightarrow> ('c, 'm) goroutine \<Rightarrow> responseMsg list" where
  "replies d g = concat (map (\<lambda>out. sent (handleOutput d out)) (enqueued g))"

section \<open>An instance of the collaborators\<close>

text \<open>Modelled from the spec: the methods of \<open>requestMsg\<close>, which are outside the
  files at hand. The frames of an inbound message are
  \<open>[peer-identity, <empty>, request-id, action-name, schema-blob?, payload-blob?]\<close>;
  a message is valid when the first four are there; an absent or empty blob is nil.
\<close>

definition frame :: "requestMsg \<Rightarrow> nat \<Rightarrow> bytes" where
  "frame m i = (if i < length m then m ! i else [])"

definition blob :: "requestMsg \<Rightarrow> nat \<Rightarrow> bytes option" where
  "blob m i = (if i < length m then (if m ! i = [] then None else Some (m ! i)) else None)"

definition checkFrames :: "requestMsg \<Rightarrow> string option" where
  "checkFrames m = (if length m < 4 then Some ''Invalid multipart request'' else None)"

text \<open>
  A codec for the evaluations: a command and a schema mapping are the bytes of their
  blob, the blob \<open>''?''\<close> does not decode, and a reply is packed to a text.
\<close>

definition wire :: "(bytes, bytes) deps" where
  "wire =
     \<lparr>check = checkFrames,
      getRequestID = (\<lambda>m. frame m 2),
      getAction = (\<lambda>m. frame m 3),
      getSchemas = (\<lambda>m. blob m 4),
      getPayload = (\<lambda>m. blob m 5),
      emptyFrame = [],
      UnpackMapping = (\<lambda>v. if v = ''?'' then Inl ''cannot decode'' else Inr v),
      UnpackCommand = (\<lambda>v. if v = ''?'' then Inl ''cannot decode'' else Inr v),
      zeroCommand = [],
      Pack = (\<lambda>r. Inr (case Error r of None \<Rightarrow> ''ok'' | Some e \<Rightarrow> ''error: '' @ Message e)),
      Getpid = 4242,
      SendMessage = (\<lambda>m. SendOk)\<rparr>"

definition brokenPack :: "(bytes, bytes) deps" where
  "brokenPack = wire\<lparr>Pack := (\<lambda>r. Inl ''cannot encode'')\<rparr>"

definition usersInput :: input where
  "usersInput =
     \<lparr>IsTCPEnabled = False, GetTCP = 0, GetSocket = [], GetComponent = ''service'',
      GetName = ''users'', GetVersion = ''1.0.0'', GetComponentTitle = ''users 1.0.0'',
      GetTimeout = 30000\<rparr>"

definition pong :: "(bytes, bytes) state \<Rightarrow> (bytes, bytes) requestOutput" where
  "pong st = \<lparr>state = st, err = None, response = [id_s st, [], ''pong'']\<rparr>"

text \<open>Three servers with the action \<open>ping\<close>: one answers in time, one late, one never.\<close>

definition prompt :: "(bytes, bytes) server" where
  "prompt =
     \<lparr>component_s = \<lparr>hasCallback = (\<lambda>a. a = ''ping'')\<rparr>, input = usersInput,
      processor = (\<lambda>c st. WritesBeforeDeadline (pong st))\<rparr>"

definition late :: "(bytes, bytes) server" where
  "late = prompt\<lparr>processor := (\<lambda>c st. WritesAfterDeadline (pong st))\<rparr>"

definition silent :: "(bytes, bytes) server" where
  "silent = prompt\<lparr>processor := (\<lambda>c st. NeverWrites)\<rparr>"

definition pingMsg :: requestMsg where
  "pingMsg = [''peer-1'', [], ''rid-1'', ''ping'', [], ''args'']"

definition unknownMsg :: requestMsg where
  "unknownMsg = [''peer-1'', [], ''rid-2'', ''purge'']"

definition badPayloadMsg :: requestMsg where
  "badPayloadMsg = [''peer-1'', [], ''rid-3'', ''ping'', [], ''?'']"

definition noActionMsg :: requestMsg where
  "noActionMsg = [''peer-1'', [], ''rid-4'']"

section \<open>The local-socket name\<close>

lemma runs_concat: "concat (runs s) = s"
  by (induction s rule: runs.induct) auto

lemma replace_alnum_prefix:
  "list_all isAlnum xs \<Longrightarrow> ReplaceAllString (xs @ ys) repl = xs @ ReplaceAllString ys repl"
  by (induction xs) auto

lemma takeWhile_all: "list_all P (takeWhile P xs)"
  by (induction xs) auto

lemma replace_runs: "ReplaceAllString s ''-'' = spec_socket_name s"
proof (induction s rule: runs.induct)
  case 1
  show ?case by (simp add: spec_socket_name_def)
next
  case (2 c cs)
  show ?case
  proof (cases "isAlnum c")
    case True
    have all: "list_all isAlnum (takeWhile isAlnum cs)"
      by (rule takeWhile_all)
    have "ReplaceAllString cs ''-'' = takeWhile isAlnum cs @ ReplaceAllString (dropWhile isAlnum cs) ''-''"
      using replace_alnum_prefix [OF all, of "dropWhile isAlnum cs" "''-''"] by simp
    then show ?thesis using 2 True all by (simp add: collapseRun_def spec_socket_name_def)
  next
    case False
    then show ?thesis using 2 by (simp add: collapseRun_def spec_socket_name_def)
  qed
qed

lemma runs_blocks: "list_all (\<lambda>r. r \<noteq> [] \<and> homogeneous r) (runs s)"
proof (induction s rule: runs.induct)
  case 1 show ?case by simp
next
  case (2 c cs)
  have "list_all (\<lambda>x. isAlnum x = isAlnum c) (takeWhile (\<lambda>x. isAlnum x = isAlnum c) cs)"
    by (rule takeWhile_all)
  then show ?case using 2 by (simp add: homogeneous_def)
qed

lemma runs_alternating: "alternating (runs s)"
proof (induction s rule: runs.induct)
  case 1 show ?case by simp
next
  case (2 c cs)
  show ?case
  proof (cases "dropWhile (\<lambda>x. isAlnum x = isAlnum c) cs")
    case Nil
    have "runs (c # cs) = [c # takeWhile (\<lambda>x. isAlnum x = isAlnum c) cs]"
      by (simp only: runs.simps Nil)
    then show ?thesis by simp
  next
    case (Cons d ds)
    have "isAlnum d \<noteq> isAlnum c"
      using hd_dropWhile [of "\<lambda>x. isAlnum x = isAlnum c" cs] Cons by auto
    then show ?thesis
      using 2 Cons by (auto simp del: runs.simps(2) simp: runs.simps(2)[of d ds] runs.simps(2)[of c cs])
  qed
qed

lemma runs_maximal: "maximal_runs s (runs s)"
  by (simp add: maximal_runs_def runs_concat runs_blocks runs_alternating)

lemma takeWhile_block:
  "list_all P xs \<Longrightarrow> ys = [] \<or> \<not> P (hd ys) \<Longrightarrow> takeWhile P (xs @ ys) = xs"
  by (induction xs) (auto simp: takeWhile_eq_Nil_iff)

lemma dropWhile_block:
  "list_all P xs \<Longrightarrow> ys = [] \<or> \<not> P (hd ys) \<Longrightarrow> dropWhile P (xs @ ys) = ys"
  by (induction xs) (auto simp: dropWhile_eq_self_iff)

lemma maximal_runs_tail: "maximal_runs s (r # rs) \<Longrightarrow> maximal_runs (concat rs) rs"
  by (cases rs) (auto simp: maximal_runs_def)

lemma maximal_runs_next:
  "maximal_runs s (r # rs) \<Longrightarrow> concat rs = [] \<or> isAlnum (hd (concat rs)) \<noteq> isAlnum (hd r)"
  by (cases rs) (auto simp: maximal_runs_def)

lemma maximal_runs_unique: "maximal_runs s rs \<Longrightarrow> rs = runs s"
proof (induction s arbitrary: rs rule: runs.induct)
  case 1
  then show ?case by (cases rs) (auto simp: maximal_runs_def)
next
  case (2 c cs)
  let ?P = "\<lambda>x. isAlnum x = isAlnum c"
  from 2(2) obtain r rs' where rs: "rs = r # rs'"
    by (cases rs) (auto simp: maximal_runs_def)
  from 2(2) rs obtain r' where r: "r = c # r'" and cs: "cs = r' @ concat rs'"
    by (cases r) (auto simp: maximal_runs_def)
  have hom: "list_all ?P r'"
    using 2(2) rs r by (auto simp: maximal_runs_def homogeneous_def)
  have nxt: "concat rs' = [] \<or> \<not> ?P (hd (concat rs'))"
    using maximal_runs_next [of "c # cs" r rs'] 2(2) rs r by auto
  have tw: "takeWhile ?P cs = r'"
    unfolding cs by (rule takeWhile_block [OF hom nxt])
  have dw: "dropWhile ?P cs = concat rs'"
    unfolding cs by (rule dropWhile_block [OF hom nxt])
  have "maximal_runs (concat rs') rs'"
    using maximal_runs_tail 2(2) rs by blast
  then have "rs' = runs (dropWhile ?P cs)"
    using 2(1) dw by simp
  then show ?case using rs r tw by simp
qed

text \<open>
  C8: the generated local-socket address is a function of the identity strings alone:
  the fixed scheme tag \<open>ipc://@kusanagi-\<close> followed by the strings joined with \<open>-\<close>,
  in which every maximal run of non-alphanumeric characters has been replaced by a
  single \<open>-\<close>. \<open>getAddress\<close> generates it from the component, the name and the
  version when neither a TCP port nor a socket name is configured.
\<close>

theorem ipc_address:
  "IPC args = ''ipc://@kusanagi-'' @ spec_socket_name (Join args ''-'')
   \<and> maximal_runs (Join args ''-'') (runs (Join args ''-''))
   \<and> getAddress (i\<lparr>IsTCPEnabled := False, GetSocket := []\<rparr>)
       = ''ipc://@kusanagi-'' @ spec_socket_name (Join [GetComponent i, GetName i, GetVersion i] ''-'')"
  by (simp add: IPC_def replace_runs runs_maximal getAddress_def)

section \<open>The listener loop\<close>

lemma listener_exits_on_receive:
  "chanBuf msgc = msg # rest \<Longrightarrow> listenerLoop (Suc n) d s msgc L = Some (Exited L)"
  by (simp add: chanRecvOk_def chanRecv_def)

lemma listener_spins_when_closed:
  "chanBuf msgc = [] \<Longrightarrow> chanClosed msgc \<Longrightarrow> listenerLoop n d s msgc L = None"
  by (induction n arbitrary: L) (simp_all add: chanRecvOk_def chanRecv_def)

section \<open>The request goroutine, case by case\<close>

lemma process_unknown_action:
  "\<not> hasCallback (component_s s) (getAction d msg) \<Longrightarrow>
   processRequest d s sv msg =
     \<lparr>enqueued = [\<lparr>state = newState d s sv msg,
                   err = Some (invalidAction (GetComponentTitle (input s)) (getAction d msg)),
                   response = []\<rparr>],
      logged = [], invoked = None, outc = None, lateSend = None\<rparr>"
  by (simp add: processRequest_def Let_def)

lemma process_payload_error:
  "hasCallback (component_s s) (getAction d msg) \<Longrightarrow> payloadError d msg = Some e \<Longrightarrow>
   processRequest d s sv msg =
     \<lparr>enqueued = [\<lparr>state = newState d s sv msg,
                   err = Some (invalidPayload (GetComponentTitle (input s)) (getAction d msg)),
                   response = []\<rparr>],
      logged = [LogEntry Critical None (''Failed to read payload: '' @ e)],
      invoked = None, outc = None, lateSend = None\<rparr>"
  by (simp add: processRequest_def Let_def)

lemma process_in_time:
  "hasCallback (component_s s) (getAction d msg) \<Longrightarrow> payloadError d msg = None \<Longrightarrow>
   processor s (component_s s) (handlerState d s sv msg) = WritesBeforeDeadline out \<Longrightarrow>
   processRequest d s sv msg =
     \<lparr>enqueued = [out], logged = [], invoked = Some (handlerState d s sv msg),
      outc = Some \<lparr>chanBuf = [], chanCap = 0, chanClosed = True\<rparr>, lateSend = None\<rparr>"
  by (simp add: processRequest_def Let_def chanSend_def makeChan_def closeChan_def)

lemma process_late:
  "hasCallback (component_s s) (getAction d msg) \<Longrightarrow> payloadError d msg = None \<Longrightarrow>
   processor s (component_s s) (handlerState d s sv msg) = WritesAfterDeadline out \<Longrightarrow>
   processRequest d s sv msg =
     \<lparr>enqueued = [],
      logged = [LogEntry Warningf (Some (getRequestID d msg))
                  (timedOut (timeoutOf (input s)) (Getpid d))],
      invoked = Some (handlerState d s sv msg),
      outc = Some \<lparr>chanBuf = [], chanCap = 0, chanClosed = True\<rparr>, lateSend = Some Panics\<rparr>"
  by (simp add: processRequest_def Let_def chanSend_def makeChan_def closeChan_def)

lemma process_never:
  "hasCallback (component_s s) (getAction d msg) \<Longrightarrow> payloadError d msg = None \<Longrightarrow>
   processor s (component_s s) (handlerState d s sv msg) = NeverWrites \<Longrightarrow>
   processRequest d s sv msg =
     \<lparr>enqueued = [],
      logged = [LogEntry Warningf (Some (getRequestID d msg))
                  (timedOut (timeoutOf (input s)) (Getpid d))],
      invoked = Some (handlerState d s sv msg),
      outc = Some \<lparr>chanBuf = [], chanCap = 0, chanClosed = True\<rparr>, lateSend = None\<rparr>"
  by (simp add: processRequest_def Let_def chanSend_def makeChan_def closeChan_def)

lemma ping_accepted: "check wire pingMsg = None"
  by (simp add: wire_def checkFrames_def pingMsg_def)

lemma ping_registered: "hasCallback (component_s prompt) (getAction wire pingMsg)"
  by (simp add: wire_def prompt_def pingMsg_def frame_def)

lemma ping_payload: "payloadError wire pingMsg = None"
  by (simp add: wire_def payloadError_def pingMsg_def blob_def)

lemma ping_schemas: "getSchemas wire pingMsg = None"
  by (simp add: wire_def pingMsg_def blob_def)

lemma handle_accepted:
  "check d msg = None \<Longrightarrow> getSchemas d msg = None \<Longrightarrow>
   handleMessage d s msg L = L\<lparr>goroutines := goroutines L @ [processRequest d s (schemasVar L) msg]\<rparr>"
  by (simp add: handleMessage_def)

text \<open>
  C1: every accepted inbound message is to produce exactly one request output on the
  shared channel (none when the processor misses its deadline). The loop of the
  listener binds the second value of the receive, which is true when a message was
  received, to \<open>closed\<close> and breaks on it: for an accepted message with a registered
  action and a readable payload, whose processor answers in time, the listener exits
  without an output, while the body of its loop would have produced exactly one.
\<close>

theorem listener_drops_first_message:
  "check wire pingMsg = None
   \<and> hasCallback (component_s prompt) (getAction wire pingMsg)
   \<and> payloadError wire pingMsg = None
   \<and> startMessageListener 3 wire prompt \<lparr>chanBuf = [pingMsg], chanCap = 1000, chanClosed = False\<rparr>
       = Some (Exited newListener)
   \<and> resc (newListener :: (bytes, bytes) listener) = []
   \<and> resc (handleMessage wire prompt pingMsg newListener)
       = [pong (handlerState wire prompt None pingMsg)]"
proof -
  have run: "processor prompt (component_s prompt) (handlerState wire prompt None pingMsg)
      = WritesBeforeDeadline (pong (handlerState wire prompt None pingMsg))"
    by (simp add: prompt_def)
  have body: "resc (handleMessage wire prompt pingMsg newListener)
       = [pong (handlerState wire prompt None pingMsg)]"
    by (simp add: handle_accepted [OF ping_accepted ping_schemas]
        process_in_time [OF ping_registered ping_payload run] resc_def newListener_def)
  have loop: "startMessageListener 3 wire prompt
       \<lparr>chanBuf = [pingMsg], chanCap = 1000, chanClosed = False\<rparr> = Some (Exited newListener)"
    unfolding startMessageListener_def numeral_3_eq_3
    by (rule listener_exits_on_receive) simp
  show ?thesis
    using ping_accepted ping_registered ping_payload loop body
    by (simp add: resc_def newListener_def)
qed

section \<open>pipeOutput forwards every value once and in order\<close>

lemma pipeInv_init: "pipeInv (chanCap c) (pipeOutput c)"
  by (simp add: pipeInv_def pipeOutput_def forwarded_def inTransit_def makeChan_def)

lemma step_inv:
  assumes "pipeInv k s" "step s e = Some s'"
  shows "pipeInv k s'"
proof (cases e)
  case (Send v)
  then show ?thesis using assms
    by (auto simp: pipeInv_def forwarded_def inTransit_def chanSend_def split: if_splits option.splits)
next
  case Close
  then show ?thesis using assms
    by (auto simp: pipeInv_def forwarded_def inTransit_def closeChan_def split: if_splits)
next
  case Forward
  then show ?thesis using assms
    by (auto simp: pipeInv_def forwarded_def inTransit_def chanSend_def chanRecv_def
        split: if_splits option.splits list.splits)
next
  case Receive
  then show ?thesis using assms
    by (auto simp: pipeInv_def forwarded_def inTransit_def chanSend_def chanRecv_def
        split: if_splits option.splits list.splits)
qed

lemma step_history:
  "step s e = Some s' \<Longrightarrow> history s' = history s @ sendsOf [e]"
  by (cases e) (auto simp: chanSend_def chanRecv_def split: if_splits option.splits list.splits)

lemma sendsOf_Cons: "sendsOf (e # es) = sendsOf [e] @ sendsOf es"
  by (cases e) auto

lemma run_inv: "pipeInv k s \<Longrightarrow> run s es = Some s' \<Longrightarrow> pipeInv k s'"
  by (induction es arbitrary: s) (auto split: option.splits dest: step_inv)

lemma run_history: "run s es = Some s' \<Longrightarrow> history s' = history s @ sendsOf es"
proof (induction es arbitrary: s)
  case Nil then show ?case by simp
next
  case (Cons e es)
  then obtain s1 where s1: "step s e = Some s1" "run s1 es = Some s'"
    by (auto split: option.splits)
  show ?case using Cons.IH [OF s1(2)] step_history [OF s1(1)] sendsOf_Cons [of e es] by simp
qed

lemma drain:
  "pipeInv k s \<Longrightarrow> \<exists>es s'. run s es = Some s' \<and> sendsOf es = [] \<and> delivered s' = history s"
proof (induction "todo s" arbitrary: s rule: less_induct)
  case less
  show ?case
  proof (cases "chanBuf (pipeChan s)")
    case (Cons v rest)
    define s1 where "s1 = s\<lparr>pipeChan := (pipeChan s)\<lparr>chanBuf := rest\<rparr>, delivered := delivered s @ [v]\<rparr>"
    have st: "step s Receive = Some s1" using Cons by (simp add: chanRecv_def s1_def)
    have inv1: "pipeInv k s1" using step_inv [OF less.prems st] .
    have "todo s1 < todo s" using Cons by (simp add: todo_def s1_def)
    from less.hyps [OF this inv1] obtain es s' where
      r: "run s1 es = Some s'" "sendsOf es = []" "delivered s' = history s1" by blast
    have "run s (Receive # es) = Some s'" using st r(1) by simp
    moreover have "history s1 = history s" by (simp add: s1_def)
    ultimately show ?thesis using r by (metis sendsOf.simps(5))
  next
    case Nil
    note pipe_empty = Nil
    show ?thesis
    proof (cases "held s")
      case (Some v)
      have run: "running s" using less.prems Some by (auto simp: pipeInv_def)
      have open_p: "chanClosed (pipeChan s) = False" using less.prems by (simp add: pipeInv_def)
      define s1 where "s1 = s\<lparr>held := None, delivered := delivered s @ [v]\<rparr>"
      have st: "step s Receive = Some s1"
        using Some run open_p pipe_empty by (simp add: chanRecv_def chanSend_def s1_def)
      have inv1: "pipeInv k s1" using step_inv [OF less.prems st] .
      have "todo s1 < todo s" using Some by (simp add: todo_def s1_def)
      from less.hyps [OF this inv1] obtain es s' where
        r: "run s1 es = Some s'" "sendsOf es = []" "delivered s' = history s1" by blast
      have "run s (Receive # es) = Some s'" using st r(1) by simp
      moreover have "history s1 = history s" by (simp add: s1_def)
      ultimately show ?thesis using r by (metis sendsOf.simps(5))
    next
      case None
      show ?thesis
      proof (cases "chanBuf (srcChan s)")
        case Nil
        have "delivered s = history s"
          using less.prems None Nil pipe_empty by (simp add: pipeInv_def forwarded_def inTransit_def)
        then have "run s [] = Some s \<and> sendsOf ([] :: 'a event list) = [] \<and> delivered s = history s"
          by simp
        then show ?thesis by blast
      next
        case (Cons v rest)
        have run: "running s" using less.prems Cons by (auto simp: pipeInv_def)
        define s1 where "s1 = s\<lparr>srcChan := (srcChan s)\<lparr>chanBuf := rest\<rparr>, held := Some v\<rparr>"
        have st: "step s Forward = Some s1"
          using None run Cons by (simp add: chanRecv_def s1_def)
        have inv1: "pipeInv k s1" using step_inv [OF less.prems st] .
        have "todo s1 < todo s" using None Cons by (simp add: todo_def s1_def)
        from less.hyps [OF this inv1] obtain es s' where
          r: "run s1 es = Some s'" "sendsOf es = []" "delivered s' = history s1" by blast
        have "run s (Forward # es) = Some s'" using st r(1) by simp
        moreover have "history s1 = history s" by (simp add: s1_def)
        ultimately show ?thesis using r by (metis sendsOf.simps(4))
      qed
    qed
  qed
qed

text \<open>
  C9: \<open>pipeOutput(c)\<close> returns a channel with the buffer capacity of \<open>c\<close>. In
  every state that the system reaches, the values that have reached the returned
  channel, followed by those still held by the goroutine or buffered in \<open>c\<close>, are
  exactly the values sent on \<open>c\<close> (those buffered at the call, then those sent since),
  in their order: nothing is dropped, duplicated or reordered. From every such state
  the goroutine and the reader can go on, with no further send, until the reader has
  received all of them.
\<close>

theorem pipeOutput_forwards:
  assumes "run (pipeOutput c) es = Some s"
  shows "chanCap (pipeChan (pipeOutput c)) = chanCap c
       \<and> chanCap (pipeChan s) = chanCap c
       \<and> history s = chanBuf c @ sendsOf es
       \<and> forwarded s @ inTransit s = history s
       \<and> (\<exists>es' s'. run s es' = Some s' \<and> sendsOf es' = [] \<and> delivered s' = history s)"
proof -
  have inv: "pipeInv (chanCap c) s"
    using run_inv [OF pipeInv_init assms] .
  have h: "history s = chanBuf c @ sendsOf es"
    using run_history [OF assms] by (simp add: pipeOutput_def)
  show ?thesis
    using inv h drain [OF inv] by (simp add: pipeInv_def pipeOutput_def makeChan_def)
qed

text \<open>
  C9, at a channel of capacity 2: three sends, interleaved with the goroutine, one
  receive and the close.
\<close>

theorem pipeOutput_forwards_witness:
  "run (pipeOutput (makeChan 2)) [Send (1::nat), Send 2, Forward, Send 3, Forward, Forward, Receive, Close, Forward]
     = Some \<lparr>srcChan = \<lparr>chanBuf = [], chanCap = 2, chanClosed = True\<rparr>, held = Some 3,
             pipeChan = \<lparr>chanBuf = [2], chanCap = 2, chanClosed = False\<rparr>, running = True,
             history = [1, 2, 3], delivered = [1]\<rparr>
   \<and> chanCap (pipeChan (pipeOutput (makeChan 2 :: nat chan))) = 2
   \<and> forwarded \<lparr>srcChan = \<lparr>chanBuf = [], chanCap = 2, chanClosed = True\<rparr>, held = Some (3::nat),
             pipeChan = \<lparr>chanBuf = [2], chanCap = 2, chanClosed = False\<rparr>, running = True,
             history = [1, 2, 3], delivered = [1]\<rparr> = [1, 2]"
proof -
  have r: "run (pipeOutput (makeChan 2)) [Send (1::nat), Send 2, Forward, Send 3, Forward, Forward, Receive, Close, Forward]
     = Some \<lparr>srcChan = \<lparr>chanBuf = [], chanCap = 2, chanClosed = True\<rparr>, held = Some 3,
             pipeChan = \<lparr>chanBuf = [2], chanCap = 2, chanClosed = False\<rparr>, running = True,
             history = [1, 2, 3], delivered = [1]\<rparr>"
    by (simp add: pipeOutput_def makeChan_def chanSend_def chanRecv_def closeChan_def)
  show ?thesis
    using r pipeOutput_forwards [OF r]
    by (simp add: forwarded_def makeChan_def)
qed

section \<open>The outcome of one request\<close>

lemma handlerState_command: "command (handlerState d s sv msg) = zeroCommand d"
  by (simp add: handlerState_def newState_def)

lemma handlerState_context: "context_s (handlerState d s sv msg) = Some (timeoutOf (input s))"
  by (simp add: handlerState_def)

lemma newState_id: "id_s (newState d s sv msg) = getRequestID d msg"
  by (simp add: newState_def)

lemma reply_of_success:
  "err out = None \<Longrightarrow> sent (handleOutput d out) = [response out]"
  by (simp add: handleOutput_def Let_def sendResponse_def split: sendOutcome.splits)

lemma reply_of_error:
  "sent (handleOutput d \<lparr>state = st, err = Some m, response = r\<rparr>) =
     (case Pack d \<lparr>Result = None, Error = Some \<lparr>Message = m\<rparr>\<rparr> of
        Inl e \<Rightarrow> [] | Inr data \<Rightarrow> [[id_s st, emptyFrame d, data]])"
  by (simp add: handleOutput_def Let_def createErrorRespose_def NewErrorReply_def sendResponse_def
      split: sum.splits sendOutcome.splits)

lemma reply_in_time:
  assumes "hasCallback (component_s s) (getAction d msg)" and "payloadError d msg = None"
    and "processor s (component_s s) (handlerState d s sv msg) = WritesBeforeDeadline out"
    and "err out = None"
  shows "replies d (processRequest d s sv msg) = [response out]"
  by (simp add: process_in_time [OF assms(1-3)] replies_def reply_of_success [OF assms(4)])

lemma ping_args: "getPayload wire pingMsg = Some ''args''"
  by (simp add: wire_def pingMsg_def blob_def)

text \<open>
  C2: for a well-formed request that names a registered action, with a decodable
  payload, the state passed to the handler is to carry the decoded command. The
  payload \<open>args\<close> of the request below decodes to the command \<open>args\<close>, but the state
  that the processor is given has the zero command: \<open>lib.Unpack\<close> is given the field
  by value. And the listener, given this request on its channel, exits before it
  starts the request goroutine, so that no reply is sent at all.
\<close>

theorem handler_state_lacks_command:
  "hasCallback (component_s prompt) (getAction wire pingMsg)
   \<and> getPayload wire pingMsg = Some ''args''
   \<and> UnpackCommand wire ''args'' = Inr ''args''
   \<and> invoked (processRequest wire prompt None pingMsg)
       = Some (handlerState wire prompt None pingMsg)
   \<and> command (handlerState wire prompt None pingMsg) = []
   \<and> startMessageListener 2 wire prompt \<lparr>chanBuf = [pingMsg], chanCap = 1000, chanClosed = False\<rparr>
       = Some (Exited newListener)"
proof -
  have run: "processor prompt (component_s prompt) (handlerState wire prompt None pingMsg)
      = WritesBeforeDeadline (pong (handlerState wire prompt None pingMsg))"
    by (simp add: prompt_def)
  have dec: "UnpackCommand wire ''args'' = Inr ''args''"
    by (simp add: wire_def)
  have cmd: "command (handlerState wire prompt None pingMsg) = []"
    by (simp add: handlerState_command wire_def)
  have loop: "startMessageListener 2 wire prompt
       \<lparr>chanBuf = [pingMsg], chanCap = 1000, chanClosed = False\<rparr> = Some (Exited newListener)"
    unfolding startMessageListener_def numeral_2_eq_2
    by (rule listener_exits_on_receive) simp
  show ?thesis
    using ping_registered ping_args dec cmd loop
    by (simp add: process_in_time [OF ping_registered ping_payload run])
qed

text \<open>
  C3, as amended: the goroutine of a request whose action is not registered puts
  exactly one output on the shared channel, with an error whose message names the title
  of the component and the action, and never starts the processor. The reactor then
  hands one error reply \<open>[request id, empty frame, packed envelope]\<close> to the socket
  when the codec packs the error envelope, and none when the packing fails.
\<close>

theorem unknown_action_reply:
  assumes "\<not> hasCallback (component_s s) (getAction d msg)"
  shows "enqueued (processRequest d s sv msg)
           = [\<lparr>state = newState d s sv msg,
               err = Some (''Invalid action for component '' @ GetComponentTitle (input s)
                           @ '': '' @ [CHR 0x22] @ getAction d msg @ [CHR 0x22]),
               response = []\<rparr>]
       \<and> id_s (newState d s sv msg) = getRequestID d msg
       \<and> invoked (processRequest d s sv msg) = None
       \<and> replies d (processRequest d s sv msg)
           = (case Pack d \<lparr>Result = None,
                           Error = Some \<lparr>Message = ''Invalid action for component ''
                             @ GetComponentTitle (input s) @ '': '' @ [CHR 0x22]
                             @ getAction d msg @ [CHR 0x22]\<rparr>\<rparr> of
                Inl e \<Rightarrow> []
              | Inr data \<Rightarrow> [[getRequestID d msg, emptyFrame d, data]])"
  by (simp add: process_unknown_action [OF assms] replies_def reply_of_error invalidAction_def
      newState_id split: sum.splits)

lemma unknown_unregistered: "\<not> hasCallback (component_s prompt) (getAction wire unknownMsg)"
  by (simp add: wire_def prompt_def unknownMsg_def frame_def)

text \<open>
  C3, at the request \<open>rid-2\<close> for the action \<open>purge\<close>, which is not registered.
\<close>

theorem unknown_action_reply_witness:
  "\<not> hasCallback (component_s prompt) (getAction wire unknownMsg)
   \<and> invoked (processRequest wire prompt None unknownMsg) = None
   \<and> map err (enqueued (processRequest wire prompt None unknownMsg))
       = [Some (''Invalid action for component users 1.0.0: '' @ [CHR 0x22] @ ''purge'' @ [CHR 0x22])]
   \<and> replies wire (processRequest wire prompt None unknownMsg)
       = [[''rid-2'', [], ''error: Invalid action for component users 1.0.0: '' @ [CHR 0x22] @ ''purge'' @ [CHR 0x22]]]"
  using unknown_unregistered unknown_action_reply [OF unknown_unregistered, of None]
  by (simp add: wire_def prompt_def usersInput_def unknownMsg_def frame_def)

text \<open>
  C3, as stated, promises exactly one error reply to the peer. With a codec that fails
  to pack the error envelope, a well-formed request for an unregistered action gets one
  output and no reply.
\<close>

theorem unknown_action_no_reply:
  "check brokenPack unknownMsg = None
   \<and> \<not> hasCallback (component_s prompt) (getAction brokenPack unknownMsg)
   \<and> length (enqueued (processRequest brokenPack prompt None unknownMsg)) = 1
   \<and> replies brokenPack (processRequest brokenPack prompt None unknownMsg) = []"
proof -
  have u: "\<not> hasCallback (component_s prompt) (getAction brokenPack unknownMsg)"
    by (simp add: brokenPack_def wire_def prompt_def unknownMsg_def frame_def)
  have c: "check brokenPack unknownMsg = None"
    by (simp add: brokenPack_def wire_def checkFrames_def unknownMsg_def)
  have p: "Pack brokenPack r = Inl ''cannot encode''" for r
    by (simp add: brokenPack_def)
  show ?thesis
    using u c
    by (simp add: process_unknown_action [OF u] replies_def reply_of_error p)
qed

text \<open>
  C4: when the payload of a request does not decode, its goroutine puts exactly one
  output on the shared channel, which carries an error (the payload error for a
  registered action; the action error otherwise, as the action is tested first), and
  never starts the processor. The reactor makes the error reply from that output with
  \<open>createErrorRespose\<close>.
\<close>

theorem payload_decode_failure:
  assumes "getPayload d msg = Some v" and "UnpackCommand d v = Inl e"
  shows "\<exists>out m. enqueued (processRequest d s sv msg) = [out]
       \<and> state out = newState d s sv msg
       \<and> m = (if hasCallback (component_s s) (getAction d msg)
               then invalidPayload (GetComponentTitle (input s)) (getAction d msg)
               else invalidAction (GetComponentTitle (input s)) (getAction d msg))
       \<and> err out = Some m
       \<and> invoked (processRequest d s sv msg) = None
       \<and> createErrorRespose d (getRequestID d msg) m
           = (case Pack d \<lparr>Result = None, Error = Some \<lparr>Message = m\<rparr>\<rparr> of
                Inl e \<Rightarrow> Inl e | Inr data \<Rightarrow> Inr [getRequestID d msg, emptyFrame d, data])
       \<and> replies d (processRequest d s sv msg)
           = (case createErrorRespose d (getRequestID d msg) m of
                Inl e \<Rightarrow> [] | Inr resp \<Rightarrow> [resp])"
proof -
  have pe: "payloadError d msg = Some e"
    using assms by (simp add: payloadError_def)
  show ?thesis
  proof (cases "hasCallback (component_s s) (getAction d msg)")
    case True
    show ?thesis
      by (simp add: process_payload_error [OF True pe] True replies_def reply_of_error
          createErrorRespose_def NewErrorReply_def newState_id split: sum.splits)
  next
    case False
    show ?thesis
      by (simp add: process_unknown_action [OF False] False replies_def reply_of_error
          createErrorRespose_def NewErrorReply_def newState_id split: sum.splits)
  qed
qed

text \<open>
  C4, at the request \<open>rid-3\<close> for the registered action \<open>ping\<close>, whose payload does
  not decode.
\<close>

theorem payload_decode_failure_witness:
  "getPayload wire badPayloadMsg = Some ''?''
   \<and> UnpackCommand wire ''?'' = Inl ''cannot decode''
   \<and> (\<exists>out. enqueued (processRequest wire prompt None badPayloadMsg) = [out]
         \<and> err out = Some (''Invalid payload for component users 1.0.0: '' @ [CHR 0x22] @ ''ping'' @ [CHR 0x22]))
   \<and> invoked (processRequest wire prompt None badPayloadMsg) = None
   \<and> replies wire (processRequest wire prompt None badPayloadMsg)
       = [[''rid-3'', [], ''error: Invalid payload for component users 1.0.0: '' @ [CHR 0x22] @ ''ping'' @ [CHR 0x22]]]"
proof -
  have p: "getPayload wire badPayloadMsg = Some ''?''"
    by (simp add: wire_def badPayloadMsg_def blob_def)
  have u: "UnpackCommand wire ''?'' = (Inl ''cannot decode'' :: string + bytes)"
    by (simp add: wire_def)
  have r: "hasCallback (component_s prompt) (getAction wire badPayloadMsg)"
    by (simp add: wire_def prompt_def badPayloadMsg_def frame_def)
  have t: "GetComponentTitle (input prompt) = ''users 1.0.0''"
    "getAction wire badPayloadMsg = ''ping''" "getRequestID wire badPayloadMsg = ''rid-3''"
    "emptyFrame wire = []"
    by (simp_all add: prompt_def usersInput_def wire_def badPayloadMsg_def frame_def)
  have k: "Pack wire \<lparr>Result = None, Error = Some \<lparr>Message = m\<rparr>\<rparr> = Inr (''error: '' @ m)" for m
    by (simp add: wire_def)
  have r': "hasCallback (component_s prompt) ''ping''"
    using r by (simp add: t)
  show ?thesis
    using p u payload_decode_failure [OF p u, of prompt None]
    by (auto simp: r' t k invalidPayload_def createErrorRespose_def NewErrorReply_def)
qed

lemma late_registered: "hasCallback (component_s late) (getAction wire pingMsg)"
  by (simp add: wire_def late_def prompt_def pingMsg_def frame_def)

lemma timeout_usersInput: "timeoutOf usersInput = 30000000000"
  by (simp add: timeoutOf_def wrap64_def usersInput_def)

lemma timedOut_text:
  "timedOut 30000000000 4242 = ''Execution timed out after 30000000000ms. PID: 4242''"
  by (simp add: timedOut_def showInt_def showNat.simps digitChar_def)

text \<open>
  C5: a request whose handler misses the deadline is to leave the output queue and the
  reactor able to serve later requests. For a processor that writes its output after
  the deadline, the goroutine puts nothing on the shared channel and logs one warning
  (with the timeout of 30000 ms printed as a number of nanoseconds), but it has closed
  the per-request channel, so the processor's send panics, which ends the process.
\<close>

theorem late_processor_crashes:
  "hasCallback (component_s late) (getAction wire pingMsg)
   \<and> payloadError wire pingMsg = None
   \<and> GetTimeout (input late) = 30000
   \<and> enqueued (processRequest wire late None pingMsg) = []
   \<and> logged (processRequest wire late None pingMsg)
       = [LogEntry Warningf (Some ''rid-1'') ''Execution timed out after 30000000000ms. PID: 4242'']
   \<and> lateSend (processRequest wire late None pingMsg) = Some Panics
   \<and> crashes (processRequest wire late None pingMsg)"
proof -
  have run: "processor late (component_s late) (handlerState wire late None pingMsg)
      = WritesAfterDeadline (pong (handlerState wire late None pingMsg))"
    by (simp add: late_def)
  have i: "input late = usersInput" "Getpid wire = 4242" "getRequestID wire pingMsg = ''rid-1''"
    by (simp_all add: late_def prompt_def wire_def pingMsg_def frame_def)
  have t: "GetTimeout usersInput = 30000"
    by (simp add: usersInput_def)
  show ?thesis
    using late_registered ping_payload
    by (simp add: process_late [OF late_registered ping_payload run] crashes_def i t
        timeout_usersInput timedOut_text)
qed

lemma silent_processor:
  assumes "hasCallback (component_s s) (getAction d msg)" and "payloadError d msg = None"
    and "processor s (component_s s) (handlerState d s sv msg) = NeverWrites"
  shows "enqueued (processRequest d s sv msg) = []
       \<and> replies d (processRequest d s sv msg) = []
       \<and> logged (processRequest d s sv msg)
           = [LogEntry Warningf (Some (getRequestID d msg)) (timedOut (timeoutOf (input s)) (Getpid d))]
       \<and> \<not> crashes (processRequest d s sv msg)"
  by (simp add: process_never [OF assms] replies_def crashes_def)

lemma silent_example:
  "enqueued (processRequest wire silent None pingMsg) = []
   \<and> replies wire (processRequest wire silent None pingMsg) = []
   \<and> \<not> crashes (processRequest wire silent None pingMsg)"
proof -
  have r: "hasCallback (component_s silent) (getAction wire pingMsg)"
    by (simp add: wire_def silent_def prompt_def pingMsg_def frame_def)
  have n: "processor silent (component_s silent) (handlerState wire silent None pingMsg)
      = NeverWrites"
    by (simp add: silent_def)
  show ?thesis
    using silent_processor [OF r ping_payload n] by simp
qed

text \<open>
  C10: once the deadline is taken, the request goroutine returns and its deferred
  \<open>close\<close> closes the per-request channel; the send of a processor that writes its
  output afterwards is a send on a closed channel and panics. The late output is not
  dropped silently: it reaches neither the shared channel nor the peer, and the panic
  ends the process.
\<close>

theorem late_send_panics:
  assumes "hasCallback (component_s s) (getAction d msg)" and "payloadError d msg = None"
    and "processor s (component_s s) (handlerState d s sv msg) = WritesAfterDeadline out"
  shows "\<exists>ch. outc (processRequest d s sv msg) = Some ch
       \<and> chanClosed ch
       \<and> lateSend (processRequest d s sv msg) = Some (chanSend ch False out)
       \<and> chanSend ch False out = Panics
       \<and> crashes (processRequest d s sv msg)
       \<and> enqueued (processRequest d s sv msg) = []
       \<and> replies d (processRequest d s sv msg) = []"
  by (simp add: process_late [OF assms] replies_def crashes_def chanSend_def)

text \<open>
  C10, at the request \<open>rid-1\<close> and the server whose processor answers late.
\<close>

theorem late_send_panics_witness:
  "hasCallback (component_s late) (getAction wire pingMsg)
   \<and> payloadError wire pingMsg = None
   \<and> processor late (component_s late) (handlerState wire late (Some ''v1'') pingMsg)
       = WritesAfterDeadline (pong (handlerState wire late (Some ''v1'') pingMsg))
   \<and> outc (processRequest wire late (Some ''v1'') pingMsg)
       = Some \<lparr>chanBuf = [], chanCap = 0, chanClosed = True\<rparr>
   \<and> lateSend (processRequest wire late (Some ''v1'') pingMsg) = Some Panics
   \<and> enqueued (processRequest wire late (Some ''v1'') pingMsg) = []"
proof -
  have run: "processor late (component_s late) (handlerState wire late (Some ''v1'') pingMsg)
      = WritesAfterDeadline (pong (handlerState wire late (Some ''v1'') pingMsg))"
    by (simp add: late_def)
  show ?thesis
    using late_registered ping_payload run late_send_panics [OF late_registered ping_payload run]
    by (auto simp: process_late [OF late_registered ping_payload run])
qed

text \<open>
  C6, as amended: when \<open>check\<close> rejects a message, the iteration of the listener logs
  exactly one diagnostic and nothing else happens: no request goroutine is started, no
  output is put on the shared channel (so nothing is sent), the schemas are not read.
  This is so for every rejected message, with or without a request id.
\<close>

theorem rejected_message_dropped:
  assumes "check d msg = Some e"
  shows "handleMessage d s msg L = L\<lparr>globalLog := globalLog L @ [LogEntry Critical None e]\<rparr>
       \<and> goroutines (handleMessage d s msg L) = goroutines L
       \<and> resc (handleMessage d s msg L) = resc L
       \<and> schemasVar (handleMessage d s msg L) = schemasVar L"
  using assms by (simp add: handleMessage_def resc_def)

lemma noAction_rejected: "check wire noActionMsg = Some ''Invalid multipart request''"
  by (simp add: wire_def checkFrames_def noActionMsg_def)

text \<open>
  C6, at a message with a request id and no action frame.
\<close>

theorem rejected_message_dropped_witness:
  "check wire noActionMsg = Some ''Invalid multipart request''
   \<and> globalLog (handleMessage wire prompt noActionMsg newListener)
       = [LogEntry Critical None ''Invalid multipart request'']
   \<and> goroutines (handleMessage wire prompt noActionMsg newListener) = []"
  using noAction_rejected rejected_message_dropped [OF noAction_rejected, of prompt newListener]
  by (simp add: newListener_def)

text \<open>
  C6, as stated, promises an error response when the request id is present and only
  other fields are malformed. The message below has the request id \<open>rid-4\<close> and lacks
  the action frame; it is rejected, and no output and no reply is made for it.
\<close>

theorem malformed_with_request_id:
  "getRequestID wire noActionMsg = ''rid-4''
   \<and> check wire noActionMsg = Some ''Invalid multipart request''
   \<and> goroutines (handleMessage wire prompt noActionMsg newListener) = []
   \<and> resc (handleMessage wire prompt noActionMsg newListener) = []
   \<and> concat (map (\<lambda>out. sent (handleOutput wire out))
               (resc (handleMessage wire prompt noActionMsg newListener))) = []"
proof -
  have "getRequestID wire noActionMsg = ''rid-4''"
    by (simp add: wire_def noActionMsg_def frame_def)
  then show ?thesis
    using noAction_rejected
    by (simp add: handleMessage_def resc_def newListener_def)
qed

text \<open>
  C7: \<open>createErrorRespose(rid, message)\<close> packs the envelope that declares no result
  and whose error has the given message, and returns the frames
  \<open>[rid, empty frame, packed envelope]\<close>, or the error of the packing. The reactor, on
  an output with an error, sends these frames; when the packing fails it logs the
  request's error and the failure, sends nothing and goes on.
\<close>

theorem error_response:
  "createErrorRespose d rid message
     = (case Pack d \<lparr>Result = None, Error = Some \<lparr>Message = message\<rparr>\<rparr> of
          Inl e \<Rightarrow> Inl e
        | Inr data \<Rightarrow> Inr [rid, emptyFrame d, data])
   \<and> handleOutput d \<lparr>state = st, err = Some message, response = r\<rparr>
     = (case Pack d \<lparr>Result = None, Error = Some \<lparr>Message = message\<rparr>\<rparr> of
          Inl e \<Rightarrow>
            \<lparr>sent = [],
             reactorLog = [LogEntry Errorf (Some (logger st)) (''Request failed with error: '' @ message),
                           LogEntry Errorf (Some (logger st)) (''Failed to create error response: '' @ e)],
             returned = None\<rparr>
        | Inr data \<Rightarrow> sendResponse d (logger st) [id_s st, emptyFrame d, data])"
  by (simp add: createErrorRespose_def NewErrorReply_def handleOutput_def Let_def split: sum.splits)

end
